theory Spec2Isabelle
  imports Complex_Main "HOL-Library.Word"
begin

section \<open>Quad MOD: the oscillator engine of \<^verbatim>\<open>quad_MOD.ino\<close>\<close>

text \<open>
  The firmware keeps its state in global arrays indexed by the channel (0 to 3) and
  updates one element of each per call. The functions below are the firmware's, under
  their own names, with the touched elements passed in and returned.

  Numbers. \<^verbatim>\<open>uint8_t\<close>, \<^verbatim>\<open>uint16_t\<close> and \<^verbatim>\<open>unsigned long\<close> are \<open>8 word\<close>,
  \<open>16 word\<close> and \<open>32 word\<close> (the AVR widths). \<^verbatim>\<open>long\<close> values that stay small are \<open>int\<close>.
  A \<^verbatim>\<open>float\<close> is a \<open>real\<close>. The phase accumulator, where sums of many small increments
  decide what is read from the tables, rounds every operation to binary32
  (\<open>round_binary32\<close>); the other arithmetic (clamps, comparisons, the frequency map) is
  the exact one. A conversion from a floating value to an unsigned integer type
  truncates towards zero. C++ defines the result only when the truncated value fits the
  target type (\<open>fits_uint8\<close>, \<open>fits_uint16\<close>); the compiled firmware converts through a
  32-bit integer and keeps the low bits, so the conversion reduces the truncated value
  modulo \<open>2 ^ 8\<close> or \<open>2 ^ 16\<close>, and so does the model.
\<close>

subsection \<open>Constants and wave tables\<close>

definition TABLE_SIZE :: nat where
  "TABLE_SIZE = 256"

definition UPDATE_INTERVAL_US :: nat where
  "UPDATE_INTERVAL_US = 400"

definition triangleWave :: "8 word list" where
  "triangleWave =
    [0, 2, 4, 6, 8, 10, 12, 14, 16, 18, 20, 22, 24, 26, 28, 30,
     32, 34, 36, 38, 40, 42, 44, 46, 48, 50, 52, 54, 56, 58, 60, 62,
     64, 66, 68, 70, 72, 74, 76, 78, 80, 82, 84, 86, 88, 90, 92, 94,
     96, 98, 100, 102, 104, 106, 108, 110, 112, 114, 116, 118, 120, 122, 124, 126,
     128, 130, 132, 134, 136, 138, 140, 142, 144, 146, 148, 150, 152, 154, 156, 158,
     160, 162, 164, 166, 168, 170, 172, 174, 176, 178, 180, 182, 184, 186, 188, 190,
     192, 194, 196, 198, 200, 202, 204, 206, 208, 210, 212, 214, 216, 218, 220, 222,
     224, 226, 228, 230, 232, 234, 236, 238, 240, 242, 244, 246, 248, 250, 252, 254,
     255, 253, 251, 249, 247, 245, 243, 241, 239, 237, 235, 233, 231, 229, 227, 225,
     223, 221, 219, 217, 215, 213, 211, 209, 207, 205, 203, 201, 199, 197, 195, 193,
     191, 189, 187, 185, 183, 181, 179, 177, 175, 173, 171, 169, 167, 165, 163, 161,
     159, 157, 155, 153, 151, 149, 147, 145, 143, 141, 139, 137, 135, 133, 131, 129,
     127, 125, 123, 121, 119, 117, 115, 113, 111, 109, 107, 105, 103, 101, 99, 97,
     95, 93, 91, 89, 87, 85, 83, 81, 79, 77, 75, 73, 71, 69, 67, 65,
     63, 61, 59, 57, 55, 53, 51, 49, 47, 45, 43, 41, 39, 37, 35, 33,
     31, 29, 27, 25, 23, 21, 19, 17, 15, 13, 11, 9, 7, 5, 3, 1]"

definition squareWave :: "8 word list" where
  "squareWave =
    [0, 0, 0, 0, 0, 0, 0, 0, 0, 0, 0, 0, 0, 0, 0, 0,
     0, 0, 0, 0, 0, 0, 0, 0, 0, 0, 0, 0, 0, 0, 0, 0,
     0, 0, 0, 0, 0, 0, 0, 0, 0, 0, 0, 0, 0, 0, 0, 0,
     0, 0, 0, 0, 0, 0, 0, 0, 0, 0, 0, 0, 0, 0, 0, 0,
     0, 0, 0, 0, 0, 0, 0, 0, 0, 0, 0, 0, 0, 0, 0, 0,
     0, 0, 0, 0, 0, 0, 0, 0, 0, 0, 0, 0, 0, 0, 0, 0,
     0, 0, 0, 0, 0, 0, 0, 0, 0, 0, 0, 0, 0, 0, 0, 0,
     0, 0, 0, 0, 0, 0, 0, 0, 0, 0, 0, 0, 0, 0, 0, 0,
     255, 255, 255, 255, 255, 255, 255, 255, 255, 255, 255, 255, 255, 255, 255, 255,
     255, 255, 255, 255, 255, 255, 255, 255, 255, 255, 255, 255, 255, 255, 255, 255,
     255, 255, 255, 255, 255, 255, 255, 255, 255, 255, 255, 255, 255, 255, 255, 255,
     255, 255, 255, 255, 255, 255, 255, 255, 255, 255, 255, 255, 255, 255, 255, 255,
     255, 255, 255, 255, 255, 255, 255, 255, 255, 255, 255, 255, 255, 255, 255, 255,
     255, 255, 255, 255, 255, 255, 255, 255, 255, 255, 255, 255, 255, 255, 255, 255,
     255, 255, 255, 255, 255, 255, 255, 255, 255, 255, 255, 255, 255, 255, 255, 255,
     255, 255, 255, 255, 255, 255, 255, 255, 255, 255, 255, 255, 255, 255, 255, 255]"

definition sineWave :: "8 word list" where
  "sineWave =
    [127, 130, 133, 136, 139, 142, 145, 148, 151, 154, 157, 160, 163, 166, 169, 172,
     175, 178, 180, 183, 186, 189, 192, 194, 197, 200, 202, 205, 207, 210, 212, 215,
     217, 219, 222, 224, 226, 228, 230, 232, 234, 236, 237, 239, 240, 242, 243, 245,
     246, 247, 248, 249, 250, 251, 252, 252, 253, 253, 254, 254, 254, 254, 254, 254,
     255, 254, 254, 254, 254, 254, 254, 253, 253, 252, 252, 251, 250, 249, 248, 247,
     246, 245, 243, 242, 240, 239, 237, 236, 234, 232, 230, 228, 226, 224, 222, 219,
     217, 215, 212, 210, 207, 205, 202, 200, 197, 194, 192, 189, 186, 183, 180, 178,
     175, 172, 169, 166, 163, 160, 157, 154, 151, 148, 145, 142, 139, 136, 133, 130,
     127, 124, 121, 118, 115, 112, 109, 106, 103, 100, 97, 94, 91, 88, 85, 82,
     79, 76, 74, 71, 68, 65, 62, 60, 57, 54, 52, 49, 47, 44, 42, 39,
     37, 35, 32, 30, 28, 26, 24, 22, 20, 18, 17, 15, 14, 12, 11, 9,
     8, 7, 6, 5, 4, 3, 2, 2, 1, 1, 0, 0, 0, 0, 0, 0,
     0, 0, 0, 0, 0, 0, 0, 1, 1, 2, 2, 3, 4, 5, 6, 7,
     8, 9, 11, 12, 14, 15, 17, 18, 20, 22, 24, 26, 28, 30, 32, 35,
     37, 39, 42, 44, 47, 49, 52, 54, 57, 60, 62, 65, 68, 71, 74, 76,
     79, 82, 85, 88, 91, 94, 97, 100, 103, 106, 109, 112, 115, 118, 121, 124]"


subsection \<open>Conversions from \<^verbatim>\<open>float\<close> to unsigned integers\<close>

definition trunc_zero :: "real \<Rightarrow> int" where
  "trunc_zero x = (if 0 \<le> x then \<lfloor>x\<rfloor> else \<lceil>x\<rceil>)"

definition fits_uint16 :: "real \<Rightarrow> bool" where
  "fits_uint16 x = (0 \<le> trunc_zero x \<and> trunc_zero x \<le> 65535)"

definition fits_uint8 :: "real \<Rightarrow> bool" where
  "fits_uint8 x = (0 \<le> trunc_zero x \<and> trunc_zero x \<le> 255)"

definition cast_uint16 :: "real \<Rightarrow> 16 word" where
  "cast_uint16 x = word_of_int (trunc_zero x)"

definition cast_uint8 :: "real \<Rightarrow> 8 word" where
  "cast_uint8 x = word_of_int (trunc_zero x)"

subsection \<open>Rounding to binary32\<close>

text \<open>
  IEEE 754 binary32, round to nearest, ties to even: 24 significant bits, the least
  exponent -126 (below it the spacing stays \<open>2 ^ -149\<close>). \<open>float_exp x\<close> is the exponent
  of the binade of \<open>x\<close>, \<open>pow2 (float_exp x - 23)\<close> the spacing of binary32 values there.
  Overflow to infinity is not modelled: the values here stay far below \<open>2 ^ 128\<close>.
\<close>

definition pow2 :: "int \<Rightarrow> real" where
  "pow2 k = (if 0 \<le> k then 2 ^ nat k else 1 / 2 ^ nat (- k))"

definition float_exp :: "real \<Rightarrow> int" where
  "float_exp x = (if x = 0 then - 126 else max (- 126) \<lfloor>log 2 \<bar>x\<bar>\<rfloor>)"

definition round_even :: "real \<Rightarrow> int" where
  "round_even y =
     (let f = \<lfloor>y\<rfloor>; d = y - of_int f in
      if d < 1 / 2 then f else if 1 / 2 < d then f + 1 else if even f then f else f + 1)"

definition round_binary32 :: "real \<Rightarrow> real" where
  "round_binary32 x =
     (let u = pow2 (float_exp x - 23) in of_int (round_even (x / u)) * u)"

subsection \<open>Table lookup: \<^verbatim>\<open>getWaveValue\<close>\<close>

text \<open>
  \<^verbatim>\<open>uint16_t tableIndex = ((uint16_t)phaseIndex) % TABLE_SIZE;\<close> and the \<^verbatim>\<open>switch\<close> over
  the three tables, with \<^verbatim>\<open>default: return 0\<close>.
\<close>

definition tableIndex :: "real \<Rightarrow> 16 word" where
  "tableIndex phaseIndex = cast_uint16 phaseIndex mod word_of_nat TABLE_SIZE"

definition getWaveValue :: "8 word \<Rightarrow> real \<Rightarrow> 8 word" where
  "getWaveValue waveType phaseIndex =
     (let i = tableIndex phaseIndex in
      if waveType = 0 then triangleWave ! unat i
      else if waveType = 1 then squareWave ! unat i
      else if waveType = 2 then sineWave ! unat i
      else 0)"

subsection \<open>Phase accumulator: \<^verbatim>\<open>updateLFO\<close>\<close>

text \<open>
  \<open>sampleRate\<close> is the local constant of \<^verbatim>\<open>updateLFO\<close> and \<open>lfoIncrement\<close> its local
  \<^verbatim>\<open>increment\<close>. The quotients, the product and the sum are each rounded to binary32, as
  the \<^verbatim>\<open>float\<close> operations of the source are; nothing reduces the sum modulo the table
  size.
\<close>

definition sampleRate :: real where
  "sampleRate = round_binary32 (1000000 / real UPDATE_INTERVAL_US)"

definition lfoIncrement :: "real \<Rightarrow> real" where
  "lfoIncrement freq = round_binary32 (freq * round_binary32 (real TABLE_SIZE / sampleRate))"

definition updateLFO :: "real \<Rightarrow> real \<Rightarrow> real" where
  "updateLFO phaseIndex freq =
     (let increment = lfoIncrement freq in round_binary32 (phaseIndex + increment))"

text \<open>\<open>n\<close> ticks of a channel whose update is \<^verbatim>\<open>updateLFO(lfoIndex[i], freq)\<close>.\<close>

fun ticksLFO :: "nat \<Rightarrow> real \<Rightarrow> real \<Rightarrow> real" where
  "ticksLFO 0 freq phaseIndex = phaseIndex"
| "ticksLFO (Suc n) freq phaseIndex = ticksLFO n freq (updateLFO phaseIndex freq)"

subsection \<open>Frequency mapping: \<^verbatim>\<open>readFrequency\<close>\<close>

text \<open>
  \<^verbatim>\<open>analogRead\<close> is the hardware; its result is the parameter \<open>rawVal\<close>. \<open>freqOfNorm\<close>
  is the function's last three lines, from the normalised value \<open>n\<close> (\<^verbatim>\<open>norm\<close> in the
  source) to Hertz; \<^verbatim>\<open>powf\<close> on a positive base is \<open>powr\<close>.
\<close>

definition freqOfNorm :: "real \<Rightarrow> real" where
  "freqOfNorm n = (let fMin = 0.05; fMax = 20.0 in fMin * (fMax / fMin) powr n)"

definition readFrequency :: "16 word \<Rightarrow> real" where
  "readFrequency rawVal = (let n = real (unat rawVal) / 1023.0 in freqOfNorm n)"

subsection \<open>Arduino core: \<^verbatim>\<open>constrain\<close> and \<^verbatim>\<open>random\<close>\<close>

text \<open>
  \<^verbatim>\<open>#define constrain(amt,low,high) ((amt)<(low)?(low):((amt)>(high)?(high):(amt)))\<close>
\<close>

definition constrain :: "real \<Rightarrow> real \<Rightarrow> real \<Rightarrow> real" where
  "constrain amt low high = (if amt < low then low else if amt > high then high else amt)"

text \<open>
  The generator behind \<^verbatim>\<open>random\<close> is library state. It is modelled by the sequence of
  the raw values its coming calls return (avr-libc: a \<^verbatim>\<open>long\<close> from 0 to \<open>2^31 - 1\<close>).
  \<^verbatim>\<open>random(howbig)\<close> returns 0 for \<open>howbig = 0\<close> without a draw, and the raw value
  modulo \<open>howbig\<close> otherwise; \<^verbatim>\<open>random(howsmall, howbig)\<close> returns \<open>howsmall\<close> when
  \<open>howsmall \<ge> howbig\<close>, and \<^verbatim>\<open>random(howbig - howsmall) + howsmall\<close> otherwise.
\<close>

type_synonym rng = "nat \<Rightarrow> nat"

definition rng_next :: "rng \<Rightarrow> int \<times> rng" where
  "rng_next g = (int (g 0 mod 2 ^ 31), \<lambda>k. g (Suc k))"

definition random_howbig :: "int \<Rightarrow> rng \<Rightarrow> int \<times> rng" where
  "random_howbig howbig g =
     (if howbig = 0 then (0, g)
      else (case rng_next g of (r, g') \<Rightarrow> (r mod howbig, g')))"

definition random_range :: "int \<Rightarrow> int \<Rightarrow> rng \<Rightarrow> int \<times> rng" where
  "random_range howsmall howbig g =
     (if howsmall \<ge> howbig then (howsmall, g)
      else (let diff = howbig - howsmall in
            case random_howbig diff g of (r, g') \<Rightarrow> (r + howsmall, g')))"

subsection \<open>Random Slope\<close>

record RandomSlopeData =
  currentValue :: real
  targetValue :: real
  slopeStep :: real
  previousMillis :: "32 word"

text \<open>The initialisation loop of \<^verbatim>\<open>setup\<close>, for one channel.\<close>

definition setupRandomSlope :: RandomSlopeData where
  "setupRandomSlope =
     \<lparr>currentValue = 0, targetValue = 0, slopeStep = 0, previousMillis = 0\<rparr>"

text \<open>
  The condition of the first \<^verbatim>\<open>if\<close> of \<^verbatim>\<open>updateRandomSlope\<close>: the tick is a retarget
  instant. The difference of the two \<^verbatim>\<open>unsigned long\<close> values wraps.
\<close>

definition retargetDue :: "RandomSlopeData \<Rightarrow> real \<Rightarrow> 32 word \<Rightarrow> bool" where
  "retargetDue rs frequency currentMillis =
     (real (unat (currentMillis - previousMillis rs)) \<ge> 1000.0 / frequency)"

text \<open>
  \<^verbatim>\<open>updateRandomSlope(channel, frequency)\<close> on \<open>rs = randomSlope[channel]\<close>;
  \<open>currentMillis\<close> is what \<^verbatim>\<open>millis()\<close> returns in this call. The frequency is a
  \<^verbatim>\<open>readFrequency\<close> result, hence positive; the properties below are stated for positive
  frequencies (for a zero frequency the quotient is infinite in the source and 0 in HOL).
\<close>

definition updateRandomSlope ::
  "RandomSlopeData \<Rightarrow> real \<Rightarrow> 32 word \<Rightarrow> rng \<Rightarrow> RandomSlopeData \<times> rng" where
  "updateRandomSlope rs frequency currentMillis g =
     (case (if retargetDue rs frequency currentMillis
            then (case random_range 0 256 g of (t, g') \<Rightarrow>
                    (rs\<lparr>previousMillis := currentMillis,
                        targetValue := real_of_int t,
                        slopeStep := (real_of_int t - currentValue rs) / (1000.0 / frequency)\<rparr>,
                     g'))
            else (rs, g)) of
        (rs1, g1) \<Rightarrow>
          (let rs2 = rs1\<lparr>currentValue := currentValue rs1 + slopeStep rs1\<rparr> in
           if (slopeStep rs2 > 0 \<and> currentValue rs2 \<ge> targetValue rs2) \<or>
              (slopeStep rs2 < 0 \<and> currentValue rs2 \<le> targetValue rs2)
           then (rs2\<lparr>currentValue := targetValue rs2\<rparr>, g1)
           else (rs2, g1)))"

text \<open>
  A sequence of ticks of one Random Slope channel. Each tick has its frequency, its
  \<^verbatim>\<open>millis()\<close> and the generator as the tick finds it (other channels draw from it in
  between).
\<close>

fun ticksRandomSlope ::
  "RandomSlopeData \<Rightarrow> (real \<times> 32 word \<times> rng) list \<Rightarrow> RandomSlopeData" where
  "ticksRandomSlope rs [] = rs"
| "ticksRandomSlope rs ((frequency, currentMillis, g) # ts) =
     ticksRandomSlope (fst (updateRandomSlope rs frequency currentMillis g)) ts"

text \<open>
  The output stage of \<^verbatim>\<open>loop\<close> for a channel with waveform 3: the \<^verbatim>\<open>float\<close>
  \<^verbatim>\<open>currentValue\<close> is stored to the 8-bit compare register (\<^verbatim>\<open>OCR2A\<close>, \<^verbatim>\<open>OCR2B\<close>) or to
  \<^verbatim>\<open>uint8_t ledVal\<close>; \<^verbatim>\<open>updateFMTri\<close> and \<^verbatim>\<open>getAMSineValue\<close> narrow it the same way.
\<close>

definition outputRandomSlope :: "RandomSlopeData \<Rightarrow> 8 word" where
  "outputRandomSlope rs = cast_uint8 (currentValue rs)"

subsection \<open>Cross-modulation: FM and AM\<close>

text \<open>The global arrays that \<^verbatim>\<open>updateFMTri\<close> and \<^verbatim>\<open>getAMSineValue\<close> read and write.\<close>

record engine =
  waveType :: "8 word list"
  lfoIndex :: "real list"
  randomSlope :: "RandomSlopeData list"

text \<open>
  The modulation sample of \<^verbatim>\<open>updateFMTri\<close>: from \<^verbatim>\<open>modSource = (channel + 3) % 4\<close> to
  the value of \<^verbatim>\<open>modValue\<close>. The sum is an \<^verbatim>\<open>int\<close>, so it does not wrap.
\<close>

definition fmModValue :: "engine \<Rightarrow> nat \<Rightarrow> 8 word" where
  "fmModValue st channel =
     (let modSource = (channel + 3) mod 4 in
      if waveType st ! modSource = 3
      then cast_uint8 (currentValue (randomSlope st ! modSource))
      else (let sourceWaveType = (if waveType st ! modSource \<ge> 4 then 0 else waveType st ! modSource)
            in getWaveValue sourceWaveType (lfoIndex st ! modSource)))"

text \<open>The instantaneous frequency of \<^verbatim>\<open>updateFMTri\<close>, from \<^verbatim>\<open>modNorm\<close> to the clamp.\<close>

definition fmFreqOf :: "real \<Rightarrow> 8 word \<Rightarrow> real" where
  "fmFreqOf baseFreq modValue =
     (let modNorm = (real (unat modValue) - 127.5) / 127.5;
          fmDeviation = modNorm * 20.0;
          fmFreq = baseFreq + fmDeviation
      in constrain fmFreq 0.01 25.0)"

definition updateFMTri :: "nat \<Rightarrow> real \<Rightarrow> engine \<Rightarrow> engine" where
  "updateFMTri channel baseFreq st =
     (let modValue = fmModValue st channel;
          fmFreq = fmFreqOf baseFreq modValue
      in st\<lparr>lfoIndex := (lfoIndex st)[channel := updateLFO (lfoIndex st ! channel) fmFreq]\<rparr>)"

text \<open>The modulation sample of \<^verbatim>\<open>getAMSineValue\<close>, its own copy of the same lines.\<close>

definition amModValue :: "engine \<Rightarrow> nat \<Rightarrow> 8 word" where
  "amModValue st channel =
     (let modSource = (channel + 3) mod 4 in
      if waveType st ! modSource = 3
      then cast_uint8 (currentValue (randomSlope st ! modSource))
      else (let sourceWaveType = (if waveType st ! modSource \<ge> 4 then 0 else waveType st ! modSource)
            in getWaveValue sourceWaveType (lfoIndex st ! modSource)))"

text \<open>The AM arithmetic of \<^verbatim>\<open>getAMSineValue\<close>, from \<^verbatim>\<open>carrier\<close> to the returned byte.\<close>

definition amMix :: "8 word \<Rightarrow> 8 word \<Rightarrow> 8 word" where
  "amMix carrierValue modValue =
     (let carrier = (real (unat carrierValue) - 127.5) / 127.5;
          modulator = (real (unat modValue) - 127.5) / 127.5;
          amResult = carrier * (1.0 + 1.0 * modulator);
          amResult1 = (if amResult > 1.0 then 1.0 else amResult);
          amResult2 = (if amResult1 < -1.0 then -1.0 else amResult1)
      in cast_uint8 ((amResult2 * 127.5) + 127.5))"

definition getAMSineValue :: "nat \<Rightarrow> engine \<Rightarrow> 8 word" where
  "getAMSineValue channel st =
     (let sineIndex = tableIndex (lfoIndex st ! channel);
          carrierValue = sineWave ! unat sineIndex;
          modValue = amModValue st channel
      in amMix carrierValue modValue)"

text \<open>
  The waveform numbers, as \<^verbatim>\<open>waveNames\<close> and the \<^verbatim>\<open>switch\<close> of \<^verbatim>\<open>drawMenu\<close> name them.
\<close>

datatype WaveformKind =
  Triangle | Square | Sine | RandomSlope | WonkyTriangle | FM | RatchetTriangle
  | TriSine | AMSine | Swarm | Pendulum | Gravity

definition kindOf :: "8 word \<Rightarrow> WaveformKind" where
  "kindOf w =
     (if w = 0 then Triangle else if w = 1 then Square else if w = 2 then Sine
      else if w = 3 then RandomSlope else if w = 4 then WonkyTriangle else if w = 5 then FM
      else if w = 6 then RatchetTriangle else if w = 7 then TriSine else if w = 8 then AMSine
      else if w = 9 then Swarm else if w = 10 then Pendulum else Gravity)"

text \<open>
  The source sample as the specification words it: the ring neighbour \<open>(i + 3) mod 4\<close>,
  its Random Slope value, its own table for the three basic kinds, the triangle table
  on its primary phase for every other kind.
\<close>

definition tableLookup :: "8 word list \<Rightarrow> real \<Rightarrow> 8 word" where
  "tableLookup table phase = table ! unat (tableIndex phase)"

definition specSourceSample :: "engine \<Rightarrow> nat \<Rightarrow> 8 word" where
  "specSourceSample st i =
     (let j = (i + 3) mod 4 in
      case kindOf (waveType st ! j) of
        RandomSlope \<Rightarrow> cast_uint8 (currentValue (randomSlope st ! j))
      | Triangle \<Rightarrow> tableLookup triangleWave (lfoIndex st ! j)
      | Square \<Rightarrow> tableLookup squareWave (lfoIndex st ! j)
      | Sine \<Rightarrow> tableLookup sineWave (lfoIndex st ! j)
      | _ \<Rightarrow> tableLookup triangleWave (lfoIndex st ! j))"

subsection \<open>Ratchet Triangle\<close>

record RatchetTriData =
  ratchetCounter :: "16 word"
  burstDuration :: "16 word"
  pauseDuration :: "16 word"
  pauseCounter :: "16 word"
  inPause :: bool
  burstCount :: "8 word"
  maxBursts :: "8 word"
  fastFreqMultiplier :: real

text \<open>The initialisation loop of \<^verbatim>\<open>setup\<close>, for one channel: four draws.\<close>

definition setupRatchetTri :: "rng \<Rightarrow> RatchetTriData \<times> rng" where
  "setupRatchetTri g =
     (case random_howbig 100 g of (b, g1) \<Rightarrow>
      case random_howbig 200 g1 of (p, g2) \<Rightarrow>
      case random_howbig 4 g2 of (m, g3) \<Rightarrow>
      case random_howbig 600 g3 of (f, g4) \<Rightarrow>
        (\<lparr>ratchetCounter = 0,
          burstDuration = word_of_int (50 + b),
          pauseDuration = word_of_int (100 + p),
          pauseCounter = 0,
          inPause = False,
          burstCount = 0,
          maxBursts = word_of_int (2 + m),
          fastFreqMultiplier = 2.0 + real_of_int f / 100.0\<rparr>, g4))"

text \<open>
  \<^verbatim>\<open>updateRatchetTri(channel, baseFreq)\<close> on \<open>r = ratchetTri[channel]\<close> and
  \<open>phase = lfoIndex[channel]\<close>. The first branch is the pause, left by the early
  \<^verbatim>\<open>return\<close>; the second is the burst.
\<close>

definition updateRatchetTri ::
  "RatchetTriData \<Rightarrow> real \<Rightarrow> real \<Rightarrow> rng \<Rightarrow> RatchetTriData \<times> real \<times> rng" where
  "updateRatchetTri r phase baseFreq g =
     (if inPause r then
        (let r1 = r\<lparr>pauseCounter := pauseCounter r + 1\<rparr> in
         if pauseCounter r1 \<ge> pauseDuration r1 then
           (let r2 = r1\<lparr>inPause := False, pauseCounter := 0, ratchetCounter := 0,
                        burstCount := burstCount r1 + 1\<rparr> in
            case random_howbig 100 g of (d, g1) \<Rightarrow>
            case random_howbig 600 g1 of (m, g2) \<Rightarrow>
              (r2\<lparr>burstDuration := word_of_int (30 + d),
                  fastFreqMultiplier := 2.0 + real_of_int m / 100.0\<rparr>, phase, g2))
         else (r1, phase, g))
      else
        (let r1 = r\<lparr>ratchetCounter := ratchetCounter r + 1\<rparr>;
             ratchetFreq = baseFreq * fastFreqMultiplier r1;
             phase1 = updateLFO phase ratchetFreq
         in
         if ratchetCounter r1 \<ge> burstDuration r1 then
           (case (if burstCount r1 \<ge> maxBursts r1
                  then (case random_howbig 4 g of (mb, ga) \<Rightarrow>
                        case random_howbig 400 ga of (pd, gb) \<Rightarrow>
                          (r1\<lparr>burstCount := 0,
                              maxBursts := word_of_int (2 + mb),
                              pauseDuration := word_of_int (200 + pd)\<rparr>, gb))
                  else (case random_howbig 100 g of (pd, ga) \<Rightarrow>
                          (r1\<lparr>pauseDuration := word_of_int (50 + pd)\<rparr>, ga))) of
              (r2, g1) \<Rightarrow>
                (let r3 = r2\<lparr>inPause := True, ratchetCounter := 0, pauseCounter := 0\<rparr> in
                 case random_range 0 100 g1 of (c, g2) \<Rightarrow>
                   if c < 10
                   then (case random_howbig 20 g2 of (pd, g3) \<Rightarrow>
                           (r3\<lparr>pauseDuration := word_of_int (10 + pd)\<rparr>, phase1, g3))
                   else (r3, phase1, g2)))
         else (r1, phase1, g)))"

text \<open>
  A sequence of ticks of one Ratchet channel, each with its base frequency and the
  generator as the tick finds it.
\<close>

fun ticksRatchetTri ::
  "RatchetTriData \<times> real \<Rightarrow> (real \<times> rng) list \<Rightarrow> RatchetTriData \<times> real" where
  "ticksRatchetTri (r, phase) [] = (r, phase)"
| "ticksRatchetTri (r, phase) ((baseFreq, g) # ts) =
     (case updateRatchetTri r phase baseFreq g of
        (r', phase', g') \<Rightarrow> ticksRatchetTri (r', phase') ts)"

subsection \<open>Gravity\<close>

record GravityWellData =
  currentFreq :: real
  momentum :: real
  dominantWell :: "8 word"

text \<open>
  \<^verbatim>\<open>updateGravityWells(channel, baseFreq)\<close> on \<open>gw = gravityWells[channel]\<close> and
  \<open>phase = lfoIndex[channel]\<close>.
\<close>

definition updateGravityWells ::
  "GravityWellData \<Rightarrow> real \<Rightarrow> real \<Rightarrow> rng \<Rightarrow> GravityWellData \<times> real \<times> rng" where
  "updateGravityWells gw phase baseFreq g =
     (let minFreqMultiplier = 0.1;
          maxFreqMultiplier = 5.0;
          pullStrength = 0.18;
          targetChangeChance = 4
      in
      case random_range 0 1000 g of (c, g1) \<Rightarrow>
      case (if c < targetChangeChance
            then (case random_range 0 1000 g1 of (x, g2) \<Rightarrow>
                    (let randomMultiplier =
                           minFreqMultiplier +
                           (real_of_int x / 1000.0) * (maxFreqMultiplier - minFreqMultiplier)
                     in (gw\<lparr>momentum := baseFreq * randomMultiplier\<rparr>, g2)))
            else (gw, g1)) of
        (gw1, g3) \<Rightarrow>
          (let targetFreq = momentum gw1;
               gw2 = gw1\<lparr>currentFreq := currentFreq gw1 + (targetFreq - currentFreq gw1) * pullStrength\<rparr>;
               gw3 = (if currentFreq gw2 > baseFreq * maxFreqMultiplier
                      then gw2\<lparr>currentFreq := baseFreq * maxFreqMultiplier\<rparr> else gw2);
               gw4 = (if currentFreq gw3 < baseFreq * minFreqMultiplier
                      then gw3\<lparr>currentFreq := baseFreq * minFreqMultiplier\<rparr> else gw3)
           in (gw4, updateLFO phase (currentFreq gw4), g3)))"

subsection \<open>Startup: the stored waveforms\<close>

text \<open>
  \<^verbatim>\<open>uint8_t waveType[4] = {0, 0, 0, 0}\<close> and the first loop of \<^verbatim>\<open>setup\<close>; \<open>eeprom i\<close>
  is the byte \<^verbatim>\<open>EEPROM.read(i)\<close> returns.
\<close>

definition waveTypeDefault :: "8 word list" where
  "waveTypeDefault = [0, 0, 0, 0]"

definition loadWaveType :: "(nat \<Rightarrow> 8 word) \<Rightarrow> nat \<Rightarrow> 8 word list \<Rightarrow> 8 word list" where
  "loadWaveType eeprom i wt =
     (let storedWave = eeprom i in if storedWave \<le> 11 then wt[i := storedWave] else wt)"

definition setupWaveTypes :: "(nat \<Rightarrow> 8 word) \<Rightarrow> 8 word list" where
  "setupWaveTypes eeprom = fold (loadWaveType eeprom) [0..<4] waveTypeDefault"

subsection \<open>Example states\<close>

text \<open>Concrete states on which the theorems below are instantiated.\<close>

definition st_example :: engine where
  "st_example = \<lparr>waveType = [0, 8, 5, 3], lfoIndex = [65.536, 0, 0, 0],
      randomSlope = [setupRandomSlope, setupRandomSlope, setupRandomSlope,
        setupRandomSlope\<lparr>currentValue := 100.25\<rparr>]\<rparr>"

definition gw_example :: GravityWellData where
  "gw_example = \<lparr>currentFreq = 1.0, momentum = 0.0, dominantWell = 0\<rparr>"

definition ratchet_example :: RatchetTriData where
  "ratchet_example = (fst (setupRatchetTri (\<lambda>k. 0)))\<lparr>inPause := True\<rparr>"

subsection \<open>Invariants\<close>

text \<open>
  The counter bounds of the Ratchet state machine; the direction of a Random Slope ramp
  (the step points from the current value to the target, or is zero); and the range of
  a Random Slope channel.
\<close>

definition ratchetBounds :: "RatchetTriData \<Rightarrow> bool" where
  "ratchetBounds r = (pauseCounter r < pauseDuration r \<and> ratchetCounter r < burstDuration r)"

definition rampOK :: "RandomSlopeData \<Rightarrow> bool" where
  "rampOK rs =
     ((0 < slopeStep rs \<and> currentValue rs \<le> targetValue rs) \<or>
      (slopeStep rs < 0 \<and> targetValue rs \<le> currentValue rs) \<or>
      slopeStep rs = 0)"

definition slopeInRange :: "RandomSlopeData \<Rightarrow> bool" where
  "slopeInRange rs =
     (0 \<le> currentValue rs \<and> currentValue rs \<le> 255 \<and>
      0 \<le> targetValue rs \<and> targetValue rs \<le> 255 \<and> rampOK rs)"

section \<open>Properties\<close>

subsection \<open>Rounding to binary32\<close>

lemma pow2_powr: "pow2 k = 2 powr (real_of_int k)"
proof (cases "0 \<le> k")
  case True
  then have "2 powr (real_of_int k) = 2 powr (real (nat k))" by simp
  also have "\<dots> = 2 ^ nat k" by (simp add: powr_realpow)
  finally show ?thesis using True by (simp add: pow2_def)
next
  case False
  then have "real_of_int k = - real (nat (- k))" by simp
  then have "2 powr (real_of_int k) = 2 powr (- real (nat (- k)))" by (rule arg_cong)
  also have "\<dots> = inverse (2 powr real (nat (- k)))" by (rule powr_minus)
  also have "\<dots> = 1 / 2 ^ nat (- k)" by (simp only: powr_realpow zero_less_numeral inverse_eq_divide)
  finally show ?thesis using False by (simp add: pow2_def)
qed

lemma pow2_pos: "0 < pow2 k"
  by (simp add: pow2_powr)

lemma pow2_mono: "k \<le> l \<Longrightarrow> pow2 k \<le> pow2 l"
  by (simp add: pow2_powr)

lemma pow2_half: "pow2 (k - 23) / 2 = pow2 (k - 24)"
proof -
  have "real_of_int (k - 23) = real_of_int (k - 24) + 1" by simp
  then have "pow2 (k - 23) = pow2 (k - 24) * 2"
    unfolding pow2_powr by (simp only: powr_add) simp
  then show ?thesis by simp
qed

lemma float_exp_le:
  assumes "- 126 \<le> k" and "\<bar>x\<bar> < pow2 (k + 1)"
  shows "float_exp x \<le> k"
proof (cases "x = 0")
  case True
  then show ?thesis using assms(1) by (simp add: float_exp_def)
next
  case False
  then have pos: "0 < \<bar>x\<bar>" by simp
  have "\<bar>x\<bar> < 2 powr (real_of_int (k + 1))" using assms(2) by (simp only: pow2_powr)
  then have "log 2 \<bar>x\<bar> < real_of_int (k + 1)"
    using pos by (simp add: log_less_iff)
  then have "\<lfloor>log 2 \<bar>x\<bar>\<rfloor> < k + 1" by (simp only: floor_less_iff)
  then show ?thesis using False assms(1) by (simp add: float_exp_def)
qed

lemma float_exp_eq:
  assumes "- 126 \<le> e" and "pow2 e \<le> \<bar>x\<bar>" and "\<bar>x\<bar> < pow2 (e + 1)"
  shows "float_exp x = e"
proof -
  have pos: "0 < \<bar>x\<bar>" using assms(2) pow2_pos [of e] by linarith
  then have nz: "x \<noteq> 0" by auto
  have "2 powr (real_of_int e) \<le> \<bar>x\<bar>" using assms(2) by (simp only: pow2_powr)
  then have lo: "real_of_int e \<le> log 2 \<bar>x\<bar>" using pos by (simp add: le_log_iff)
  have "\<bar>x\<bar> < 2 powr (real_of_int (e + 1))" using assms(3) by (simp only: pow2_powr)
  then have hi: "log 2 \<bar>x\<bar> < real_of_int e + 1" using pos by (simp add: log_less_iff)
  from lo hi have "\<lfloor>log 2 \<bar>x\<bar>\<rfloor> = e" by (rule floor_unique)
  then show ?thesis using nz assms(1) by (simp add: float_exp_def)
qed

lemma round_even_err: "\<bar>of_int (round_even y) - y\<bar> \<le> 1 / 2"
proof -
  have "of_int \<lfloor>y\<rfloor> \<le> y" "y < of_int \<lfloor>y\<rfloor> + 1" by linarith+
  then show ?thesis
    by (auto simp: round_even_def Let_def)
qed

lemma round_even_of_int: "round_even (of_int n) = n"
  by (simp add: round_even_def)

lemma round_binary32_err: "\<bar>round_binary32 x - x\<bar> \<le> pow2 (float_exp x - 24)"
proof -
  define u where "u = pow2 (float_exp x - 23)"
  have u: "0 < u" by (simp add: u_def pow2_pos)
  have "round_binary32 x - x = (of_int (round_even (x / u)) - x / u) * u"
    using u by (simp add: round_binary32_def u_def [symmetric] algebra_simps)
  then have "\<bar>round_binary32 x - x\<bar> = \<bar>of_int (round_even (x / u)) - x / u\<bar> * u"
    using u by (simp add: abs_mult)
  also have "\<dots> \<le> (1 / 2) * u"
    using round_even_err [of "x / u"] u by (intro mult_right_mono) simp_all
  also have "\<dots> = pow2 (float_exp x - 24)"
    unfolding u_def using pow2_half [of "float_exp x"] by simp
  finally show ?thesis .
qed

lemma round_binary32_err_le:
  assumes "- 126 \<le> k" and "\<bar>x\<bar> < pow2 (k + 1)"
  shows "\<bar>round_binary32 x - x\<bar> \<le> pow2 (k - 24)"
proof -
  have "float_exp x - 24 \<le> k - 24" using float_exp_le [OF assms] by simp
  then have "pow2 (float_exp x - 24) \<le> pow2 (k - 24)" by (rule pow2_mono)
  with round_binary32_err [of x] show ?thesis by linarith
qed

lemma round_binary32_at:
  assumes "- 126 \<le> e" and "pow2 e \<le> \<bar>x\<bar>" and "\<bar>x\<bar> < pow2 (e + 1)"
  shows "round_binary32 x = of_int (round_even (x / pow2 (e - 23))) * pow2 (e - 23)"
  unfolding round_binary32_def Let_def float_exp_eq [OF assms] by (rule refl)

subsection \<open>Phase accumulator\<close>

lemma sampleRate_eq: "sampleRate = 2500"
proof -
  have a: "(- 126 :: int) \<le> 11" by simp
  have b: "pow2 11 \<le> \<bar>2500\<bar>" by (simp add: pow2_def)
  have c: "\<bar>2500\<bar> < pow2 (11 + 1)" by (simp add: pow2_def)
  have p: "pow2 (11 - 23) = 1 / 4096" by (simp add: pow2_def)
  have r: "round_even (2500 / (1 / 4096)) = 10240000" by (simp add: round_even_def)
  have "round_binary32 2500 = 2500"
    unfolding round_binary32_at [OF a b c] p r by simp
  then show ?thesis by (simp add: sampleRate_def UPDATE_INTERVAL_US_def)
qed

lemma round_even_near:
  assumes "of_int n \<le> y" and "y < of_int n + 1 / 2"
  shows "round_even y = n"
proof -
  have "\<lfloor>y\<rfloor> = n" using assms by (intro floor_unique) simp_all
  then show ?thesis using assms by (simp add: round_even_def)
qed

lemma updateLFO_increment: "updateLFO phase freq = round_binary32 (phase + lfoIncrement freq)"
  by (simp add: updateLFO_def)

lemma table_step_err: "\<bar>round_binary32 (256 / 2500) - 256 / 2500\<bar> \<le> 1 / 2 ^ 28"
proof -
  have "\<bar>round_binary32 (256 / 2500) - 256 / 2500\<bar> \<le> pow2 (- 4 - 24)"
    by (rule round_binary32_err_le) (simp_all add: pow2_def)
  then show ?thesis by (simp add: pow2_def)
qed

lemma lfoIncrement_err:
  assumes "0 \<le> freq" and "freq \<le> 25"
  shows "\<bar>lfoIncrement freq - freq * 256 / 2500\<bar> \<le> 1 / 2 ^ 22"
proof -
  define c where "c = round_binary32 (256 / 2500)"
  have c: "\<bar>c - 256 / 2500\<bar> \<le> 1 / 2 ^ 28"
    unfolding c_def by (rule table_step_err)
  define t :: real where "t = 256 / 2500"
  have "freq * c - freq * t = freq * (c - t)" by (simp add: algebra_simps)
  then have "\<bar>freq * c - freq * t\<bar> = freq * \<bar>c - t\<bar>"
    using assms(1) by (simp add: abs_mult)
  then have "\<bar>freq * c - freq * (256 / 2500)\<bar> = freq * \<bar>c - 256 / 2500\<bar>"
    by (simp only: t_def)
  also have "\<dots> \<le> 25 * (1 / 2 ^ 28)"
    using assms c by (intro mult_mono) simp_all
  finally have p: "\<bar>freq * c - freq * (256 / 2500)\<bar> \<le> 25 / 2 ^ 28" by simp
  have "freq * (256 / 2500) \<le> 25 * (256 / 2500)"
    using assms by (intro mult_right_mono) simp_all
  moreover have "0 \<le> freq * (256 / 2500)" using assms(1) by simp
  ultimately have "\<bar>freq * c\<bar> < 4" using p by (simp add: abs_if split: if_splits)
  then have "\<bar>freq * c\<bar> < pow2 (1 + 1)" by (simp add: pow2_def)
  then have "\<bar>round_binary32 (freq * c) - freq * c\<bar> \<le> pow2 (1 - 24)"
    by (intro round_binary32_err_le) simp_all
  then have r: "\<bar>round_binary32 (freq * c) - freq * c\<bar> \<le> 1 / 2 ^ 23"
    by (simp add: pow2_def)
  have "lfoIncrement freq = round_binary32 (freq * c)"
    by (simp add: lfoIncrement_def c_def sampleRate_eq TABLE_SIZE_def)
  then show ?thesis using r p by (simp add: abs_if split: if_splits)
qed










text \<open>
  The accumulator is bounded. Rounding never carries a value from below a power of two
  to above it, and from \<open>2 ^ 31\<close> on, where neighbouring binary32 values are 256 apart,
  an increment below 128 is absorbed. So a phase between 0 and \<open>2 ^ 31\<close> stays there under
  every update at a frequency from 0 to 1000 Hz, and its integer part fits 32 bits.
\<close>

lemma round_even_le:
  assumes "y \<le> of_int n"
  shows "round_even y \<le> n"
proof -
  have "round_even y \<le> \<lceil>y\<rceil>"
    unfolding round_even_def Let_def by (auto simp: ceiling_altdef)
  moreover have "\<lceil>y\<rceil> \<le> n" using assms by (simp add: ceiling_le_iff)
  ultimately show ?thesis by linarith
qed

lemma round_even_nonneg:
  assumes "0 \<le> y"
  shows "0 \<le> round_even y"
proof -
  have "0 \<le> \<lfloor>y\<rfloor>" using assms by simp
  then show ?thesis unfolding round_even_def Let_def by auto
qed

lemma round_binary32_nonneg:
  assumes "0 \<le> x"
  shows "0 \<le> round_binary32 x"
proof -
  have "0 \<le> x / pow2 (float_exp x - 23)"
    using assms pow2_pos [of "float_exp x - 23"] by simp
  then have "0 \<le> round_even (x / pow2 (float_exp x - 23))"
    by (rule round_even_nonneg)
  then show ?thesis
    unfolding round_binary32_def Let_def
    using pow2_pos [of "float_exp x - 23"] by simp
qed

lemma pow2_add: "pow2 (a + b) = pow2 a * pow2 b"
  by (simp add: pow2_powr powr_add)

lemma pow2_of_int:
  assumes "0 \<le> k"
  shows "pow2 k = of_int (2 ^ nat k)"
  using assms by (simp add: pow2_def)

lemma round_binary32_le_pow2:
  assumes k: "- 125 \<le> k" and x0: "0 \<le> x" and xk: "x \<le> pow2 k"
  shows "round_binary32 x \<le> pow2 k"
proof -
  define e where "e = float_exp x"
  define u where "u = pow2 (e - 23)"
  have u: "0 < u" unfolding u_def by (rule pow2_pos)
  have ek: "e \<le> k"
  proof -
    have "pow2 k < pow2 (k + 1)"
      unfolding pow2_add using pow2_pos [of k] by (simp add: pow2_def)
    then have "\<bar>x\<bar> < pow2 (k + 1)" using x0 xk by simp
    moreover have "- 126 \<le> k" using k by simp
    ultimately show ?thesis unfolding e_def by (rule float_exp_le [rotated])
  qed
  define N :: int where "N = 2 ^ nat (k - e + 23)"
  have Nu: "of_int N * u = pow2 k"
  proof -
    have "of_int N = pow2 (k - e + 23)"
      unfolding N_def using ek by (simp add: pow2_of_int)
    then have "of_int N * u = pow2 ((k - e + 23) + (e - 23))"
      unfolding u_def pow2_add by simp
    then show ?thesis by simp
  qed
  have "x / u \<le> of_int N"
    using xk u unfolding Nu [symmetric] by (simp add: field_simps)
  then have "round_even (x / u) \<le> N" by (rule round_even_le)
  then have "of_int (round_even (x / u)) * u \<le> of_int N * u"
    using u by simp
  then show ?thesis
    unfolding round_binary32_def Let_def e_def [symmetric] u_def [symmetric] Nu .
qed

lemma round_binary32_absorb_31:
  assumes "2147483648 \<le> x" and "x < 2147483648 + 128"
  shows "round_binary32 x = 2147483648"
proof -
  have a: "- 126 \<le> (31 :: int)" by simp
  have b: "pow2 31 \<le> \<bar>x\<bar>" using assms by (simp add: pow2_def)
  have c: "\<bar>x\<bar> < pow2 (31 + 1)" using assms by (simp add: pow2_def)
  have p: "pow2 (31 - 23) = 256" by (simp add: pow2_def)
  have "round_even (x / 256) = 8388608"
    by (rule round_even_near) (use assms in simp_all)
  then show ?thesis
    unfolding round_binary32_at [OF a b c] p by simp
qed

lemma round_binary32_le_31:
  assumes "0 \<le> x" and "x < 2147483648 + 128"
  shows "0 \<le> round_binary32 x \<and> round_binary32 x \<le> 2147483648"
proof (cases "x \<le> 2147483648")
  case True
  have "round_binary32 x \<le> pow2 31"
    by (rule round_binary32_le_pow2) (use assms True in \<open>simp_all add: pow2_def\<close>)
  then show ?thesis
    using round_binary32_nonneg [OF assms(1)] by (simp add: pow2_def)
next
  case False
  then have "round_binary32 x = 2147483648"
    using assms(2) by (intro round_binary32_absorb_31) simp_all
  then show ?thesis by simp
qed

lemma lfoIncrement_bounds:
  assumes "0 \<le> freq" and "freq \<le> 1000"
  shows "0 \<le> lfoIncrement freq \<and> lfoIncrement freq < 128"
proof -
  define c where "c = round_binary32 (256 / 2500)"
  have c: "\<bar>c - 256 / 2500\<bar> \<le> 1 / 2 ^ 28"
    unfolding c_def by (rule table_step_err)
  have small: "(1 :: real) / 2 ^ 28 \<le> 1 / 100" by simp
  have c0: "0 \<le> c" and c1: "c \<le> 1 / 8" using c small by linarith+
  have inc: "lfoIncrement freq = round_binary32 (freq * c)"
    by (simp add: lfoIncrement_def c_def sampleRate_eq TABLE_SIZE_def)
  have p0: "0 \<le> freq * c" using assms c0 by simp
  have "freq * c \<le> 1000 * (1 / 8)"
    using assms c0 c1 by (intro mult_mono) simp_all
  then have p1: "freq * c \<le> pow2 7" by (simp add: pow2_def)
  have "round_binary32 (freq * c) \<le> pow2 7"
    by (rule round_binary32_le_pow2) (use p0 p1 in simp_all)
  moreover have "pow2 7 = 128" by (simp add: pow2_def)
  moreover have "0 \<le> round_binary32 (freq * c)" using p0 by (rule round_binary32_nonneg)
  ultimately have "0 \<le> lfoIncrement freq \<and> lfoIncrement freq \<le> 128"
    unfolding inc by simp
  moreover have "round_binary32 (freq * c) \<noteq> 128"
  proof -
    have "freq * c \<le> 125" using \<open>freq * c \<le> 1000 * (1 / 8)\<close> by simp
    then have lt: "\<bar>freq * c\<bar> < pow2 (6 + 1)" using p0 by (simp add: pow2_def)
    have "\<bar>round_binary32 (freq * c) - freq * c\<bar> \<le> pow2 (6 - 24)"
      by (rule round_binary32_err_le [OF _ lt]) simp
    moreover have "pow2 (6 - 24) \<le> 1" by (simp add: pow2_def)
    ultimately show ?thesis using \<open>freq * c \<le> 125\<close> by linarith
  qed
  ultimately show ?thesis unfolding inc by linarith
qed

lemma updateLFO_bounded:
  assumes "0 \<le> phase" and "phase \<le> 2147483648" and "0 \<le> freq" and "freq \<le> 1000"
  shows "0 \<le> updateLFO phase freq \<and> updateLFO phase freq \<le> 2147483648"
proof -
  note i = lfoIncrement_bounds [OF assms(3,4)]
  have "0 \<le> phase + lfoIncrement freq" "phase + lfoIncrement freq < 2147483648 + 128"
    using assms(1,2) i by linarith+
  then show ?thesis
    unfolding updateLFO_increment by (rule round_binary32_le_31)
qed

lemma ticksLFO_bounded:
  assumes "0 \<le> freq" and "freq \<le> 1000"
  shows "0 \<le> phase \<Longrightarrow> phase \<le> 2147483648 \<Longrightarrow>
    0 \<le> ticksLFO n freq phase \<and> ticksLFO n freq phase \<le> 2147483648"
proof (induction n arbitrary: phase)
  case 0
  then show ?case by simp
next
  case (Suc n)
  note u = updateLFO_bounded [OF Suc.prems assms]
  show ?case
    using Suc.IH [of "updateLFO phase freq"] u by simp
qed




subsection \<open>Frequency mapping\<close>

lemma freqOfNorm_eq: "freqOfNorm n = 0.05 * (20.0 / 0.05) powr n"
  by (simp add: freqOfNorm_def)

lemma freqOfNorm_strict_mono: "n1 < n2 \<Longrightarrow> freqOfNorm n1 < freqOfNorm n2"
  by (simp add: freqOfNorm_def)

lemma freqOfNorm_pos: "0 < freqOfNorm n"
  by (simp add: freqOfNorm_def)

lemma readFrequency_pos: "0 < readFrequency rawVal"
  by (simp add: readFrequency_def freqOfNorm_pos)

text \<open>
  C2. \<^verbatim>\<open>readFrequency\<close> maps the normalised value \<open>n = rawVal / 1023\<close> to
  \<open>0.05 * (20 / 0.05) powr n\<close>. The map is a function of \<open>n\<close> alone, sends 0 to 0.05 and
  1 to 20, and is strictly increasing, in \<open>n\<close> and so in the raw reading.
\<close>

theorem C2_frequency_mapping:
  "readFrequency rawVal = freqOfNorm (real (unat rawVal) / 1023) \<and>
   freqOfNorm n = 0.05 * (20.0 / 0.05) powr n \<and>
   freqOfNorm 0 = 0.05 \<and> freqOfNorm 1 = 20.0 \<and>
   (n1 < n2 \<longrightarrow> freqOfNorm n1 < freqOfNorm n2) \<and>
   (raw1 < raw2 \<longrightarrow> readFrequency raw1 < readFrequency raw2)"
proof -
  have "readFrequency raw1 < readFrequency raw2" if "raw1 < raw2"
  proof -
    from that have "unat raw1 < unat raw2" by (simp add: word_less_nat_alt)
    then have "real (unat raw1) < real (unat raw2)" by (simp only: of_nat_less_iff)
    then have "real (unat raw1) / 1023 < real (unat raw2) / 1023"
      by (simp only: divide_strict_right_mono zero_less_numeral)
    then show ?thesis
      unfolding readFrequency_def Let_def by (simp only: freqOfNorm_strict_mono)
  qed
  then show ?thesis
    by (simp add: readFrequency_def freqOfNorm_eq freqOfNorm_strict_mono)
qed

theorem C2_frequency_mapping_witness:
  "(0::real) < 1 \<and> freqOfNorm 0 < freqOfNorm 1 \<and>
   (0 :: 16 word) < 1023 \<and> readFrequency 0 < readFrequency 1023 \<and>
   readFrequency 0 = 0.05 \<and> readFrequency 1023 = 20"
  using C2_frequency_mapping [of 0 0 0 1 0 1023]
  by (simp add: readFrequency_def freqOfNorm_def)

subsection \<open>Cross-modulation routing\<close>

lemma word8_less_4: "(w :: 8 word) < 4 \<Longrightarrow> w = 0 \<or> w = 1 \<or> w = 2 \<or> w = 3"
proof -
  assume "w < 4"
  then have "unat w < 4" by (simp add: word_less_nat_alt)
  then have "unat w = 0 \<or> unat w = 1 \<or> unat w = 2 \<or> unat w = 3" by arith
  then show ?thesis by (simp add: word_unat_eq_iff)
qed

lemma word8_ge_4: "(4 :: 8 word) \<le> w \<Longrightarrow> w \<noteq> 0 \<and> w \<noteq> 1 \<and> w \<noteq> 2 \<and> w \<noteq> 3"
  by (auto simp: word_le_nat_alt)

lemma kindOf_ge_4:
  "(4 :: 8 word) \<le> w \<Longrightarrow> kindOf w \<notin> {Triangle, Square, Sine, RandomSlope}"
  using word8_ge_4 [of w] by (simp add: kindOf_def)

lemma sample_by_kind:
  "(if w = 3 then A
    else getWaveValue (if w \<ge> 4 then 0 else w) p) =
   (case kindOf w of
      RandomSlope \<Rightarrow> A
    | Triangle \<Rightarrow> tableLookup triangleWave p
    | Square \<Rightarrow> tableLookup squareWave p
    | Sine \<Rightarrow> tableLookup sineWave p
    | _ \<Rightarrow> tableLookup triangleWave p)"
proof -
  consider "w = 0" | "w = 1" | "w = 2" | "w = 3" | "4 \<le> w"
    by (metis word8_less_4 not_le)
  then show ?thesis
  proof cases
    case 5
    then have "w \<noteq> 3" using word8_ge_4 by blast
    moreover have "kindOf w \<notin> {Triangle, Square, Sine, RandomSlope}" using 5 by (rule kindOf_ge_4)
    ultimately show ?thesis using 5
      by (cases "kindOf w") (simp_all add: getWaveValue_def tableLookup_def Let_def)
  qed (simp_all add: kindOf_def getWaveValue_def tableLookup_def Let_def word_le_nat_alt)
qed

lemma fmModValue_spec: "fmModValue st channel = specSourceSample st channel"
  unfolding fmModValue_def specSourceSample_def Let_def by (rule sample_by_kind)

lemma amModValue_spec: "amModValue st channel = specSourceSample st channel"
  unfolding amModValue_def specSourceSample_def Let_def by (rule sample_by_kind)

lemma ring_neighbour:
  "(channel :: nat) < 4 \<Longrightarrow> (channel + 3) mod 4 \<noteq> channel \<and> (channel + 3) mod 4 < 4"
  by presburger

lemma specSourceSample_cong:
  "waveType st' ! ((i + 3) mod 4) = waveType st ! ((i + 3) mod 4) \<Longrightarrow>
   lfoIndex st' ! ((i + 3) mod 4) = lfoIndex st ! ((i + 3) mod 4) \<Longrightarrow>
   randomSlope st' ! ((i + 3) mod 4) = randomSlope st ! ((i + 3) mod 4) \<Longrightarrow>
   specSourceSample st' i = specSourceSample st i"
  by (simp add: specSourceSample_def Let_def split: WaveformKind.split)

text \<open>
  C3. For a channel \<open>i\<close> of the four, the modulation sample of the FM update and of the AM
  output is read from channel \<open>(i + 3) mod 4\<close>, which is never \<open>i\<close>: it is that
  channel's Random Slope value when its waveform is Random Slope, its own table for
  Triangle, Square and Sine, and the triangle table on its primary phase for every other
  waveform. The sample depends on nothing but the neighbour's waveform, phase and Random
  Slope state.
\<close>

theorem C3_cross_modulation_source:
  assumes "channel < 4"
  shows "(channel + 3) mod 4 \<noteq> channel \<and> (channel + 3) mod 4 < 4 \<and>
    fmModValue st channel = specSourceSample st channel \<and>
    amModValue st channel = specSourceSample st channel \<and>
    updateFMTri channel baseFreq st =
      st\<lparr>lfoIndex := (lfoIndex st)
        [channel := updateLFO (lfoIndex st ! channel)
           (fmFreqOf baseFreq (specSourceSample st channel))]\<rparr> \<and>
    getAMSineValue channel st =
      amMix (sineWave ! unat (tableIndex (lfoIndex st ! channel)))
        (specSourceSample st channel) \<and>
    (waveType st' ! ((channel + 3) mod 4) = waveType st ! ((channel + 3) mod 4) \<and>
     lfoIndex st' ! ((channel + 3) mod 4) = lfoIndex st ! ((channel + 3) mod 4) \<and>
     randomSlope st' ! ((channel + 3) mod 4) = randomSlope st ! ((channel + 3) mod 4) \<longrightarrow>
       fmModValue st' channel = fmModValue st channel \<and>
       amModValue st' channel = amModValue st channel)"
proof -
  have upd: "updateFMTri channel baseFreq st =
      st\<lparr>lfoIndex := (lfoIndex st)
        [channel := updateLFO (lfoIndex st ! channel)
           (fmFreqOf baseFreq (specSourceSample st channel))]\<rparr>"
    by (simp add: updateFMTri_def fmModValue_spec Let_def)
  have am: "getAMSineValue channel st =
      amMix (sineWave ! unat (tableIndex (lfoIndex st ! channel)))
        (specSourceSample st channel)"
    by (simp add: getAMSineValue_def amModValue_spec Let_def)
  show ?thesis
    using ring_neighbour [OF assms] upd am
    by (auto simp only: fmModValue_spec amModValue_spec intro: specSourceSample_cong)
qed

theorem C3_cross_modulation_source_witness:
  "(0::nat) < 4 \<and> fmModValue st_example 0 = 100 \<and> specSourceSample st_example 0 = 100 \<and>
   amModValue st_example 1 = 130 \<and> specSourceSample st_example 1 = 130"
  using C3_cross_modulation_source [of 0 st_example 1 st_example]
        C3_cross_modulation_source [of 1 st_example 1 st_example]
  by (simp add: st_example_def specSourceSample_def kindOf_def cast_uint8_def trunc_zero_def
      tableLookup_def tableIndex_def cast_uint16_def TABLE_SIZE_def triangleWave_def)

subsection \<open>FM deviation\<close>

lemma constrain_max_min: "constrain amt 0.01 25.0 = max 0.01 (min 25.0 amt)"
  by (simp add: constrain_def max_def min_def)

lemma bipolar_range:
  "- 1 \<le> (real (unat (v :: 8 word)) - 127.5) / 127.5 \<and> (real (unat v) - 127.5) / 127.5 \<le> 1"
proof -
  have "unat v < 256" using unsigned_less [of v, where ?'a = nat] by simp
  then have "real (unat v) \<le> 255" by (simp del: of_nat_unat)
  moreover have "0 \<le> real (unat v)" by (simp del: of_nat_unat)
  ultimately show ?thesis by (simp add: field_simps del: of_nat_unat)
qed

lemma fmFreqOf_range: "0.01 \<le> fmFreqOf baseFreq modValue \<and> fmFreqOf baseFreq modValue \<le> 25.0"
  unfolding fmFreqOf_def Let_def constrain_max_min by simp

lemma updateFMTri_nth:
  "channel < length (lfoIndex st) \<Longrightarrow>
   lfoIndex (updateFMTri channel baseFreq st) ! channel =
     updateLFO (lfoIndex st ! channel) (fmFreqOf baseFreq (fmModValue st channel))"
  by (simp add: updateFMTri_def Let_def)

lemma fmFreqOf_increment:
  "\<bar>lfoIncrement (fmFreqOf baseFreq modValue) - fmFreqOf baseFreq modValue * 256 / 2500\<bar>
     \<le> 1 / 2 ^ 22"
proof -
  have "0 \<le> fmFreqOf baseFreq modValue" "fmFreqOf baseFreq modValue \<le> 25"
    using fmFreqOf_range [of baseFreq modValue] by simp_all
  then show ?thesis
    by (rule lfoIncrement_err)
qed

text \<open>
  C6. The modulation sample, a byte, becomes a bipolar value between -1 and 1; the
  frequency that drives the phase accumulator of an FM channel is the base frequency
  plus 20 Hz times that value, clamped to 0.01 Hz below and 25 Hz above, so it always
  lies between 0.01 and 25 Hz. Every call of \<^verbatim>\<open>updateFMTri\<close> replaces the channel's phase by
  \<^verbatim>\<open>updateLFO\<close> of the old phase at that frequency, the frequency being computed from the
  sample of the neighbour that the call reads, and leaves the rest of the state as it
  was; the increment of that update is the binary32 value of the frequency times
  \<open>256 / 2500\<close>, within \<open>1 / 2 ^ 22\<close> of the exact product.
\<close>

theorem C6_fm_frequency:
  "- 1 \<le> (real (unat modValue) - 127.5) / 127.5 \<and>
   (real (unat modValue) - 127.5) / 127.5 \<le> 1 \<and>
   fmFreqOf baseFreq modValue =
     max 0.01 (min 25.0 (baseFreq + (real (unat modValue) - 127.5) / 127.5 * 20.0)) \<and>
   0.01 \<le> fmFreqOf baseFreq modValue \<and> fmFreqOf baseFreq modValue \<le> 25.0 \<and>
   updateFMTri channel baseFreq st =
     st\<lparr>lfoIndex := (lfoIndex st)
       [channel := updateLFO (lfoIndex st ! channel)
          (fmFreqOf baseFreq (fmModValue st channel))]\<rparr> \<and>
   (channel < length (lfoIndex st) \<longrightarrow>
      lfoIndex (updateFMTri channel baseFreq st) ! channel =
        round_binary32 (lfoIndex st ! channel +
          lfoIncrement (fmFreqOf baseFreq (fmModValue st channel)))) \<and>
   \<bar>lfoIncrement (fmFreqOf baseFreq modValue) - fmFreqOf baseFreq modValue * 256 / 2500\<bar>
     \<le> 1 / 2 ^ 22"
proof -
  have eq: "fmFreqOf baseFreq modValue =
     max 0.01 (min 25.0 (baseFreq + (real (unat modValue) - 127.5) / 127.5 * 20.0))"
    unfolding fmFreqOf_def Let_def by (rule constrain_max_min)
  have upd: "updateFMTri channel baseFreq st =
     st\<lparr>lfoIndex := (lfoIndex st)
       [channel := updateLFO (lfoIndex st ! channel)
          (fmFreqOf baseFreq (fmModValue st channel))]\<rparr>"
    by (simp add: updateFMTri_def Let_def)
  have drive: "lfoIndex (updateFMTri channel baseFreq st) ! channel =
        round_binary32 (lfoIndex st ! channel +
          lfoIncrement (fmFreqOf baseFreq (fmModValue st channel)))"
    if "channel < length (lfoIndex st)"
    unfolding updateFMTri_nth [OF that] by (rule updateLFO_increment)
  show ?thesis
    using bipolar_range [of modValue] eq fmFreqOf_range [of baseFreq modValue] upd drive
      fmFreqOf_increment [of baseFreq modValue]
    by blast
qed

theorem C6_fm_frequency_witness:
  "(0::nat) < length (lfoIndex st_example) \<and>
   fmModValue st_example 0 = 100 \<and>
   fmFreqOf 1.0 100 = 0.01 \<and> fmFreqOf 20.0 255 = 25.0 \<and>
   lfoIndex (updateFMTri 0 1.0 st_example) ! 0 =
     round_binary32 (65.536 + lfoIncrement 0.01)"
proof -
  have len: "(0::nat) < length (lfoIndex st_example)"
    by (simp add: st_example_def)
  have mv: "fmModValue st_example 0 = 100"
    by (simp add: st_example_def fmModValue_def cast_uint8_def trunc_zero_def)
  have lo: "fmFreqOf 1.0 100 = 0.01" and hi: "fmFreqOf 20.0 255 = 25.0"
    by (simp_all add: fmFreqOf_def constrain_def)
  have ph: "lfoIndex st_example ! 0 = 65.536"
    by (simp add: st_example_def)
  from C6_fm_frequency [of 100 "1.0" 0 st_example] len
  have "lfoIndex (updateFMTri 0 1.0 st_example) ! 0 =
        round_binary32 (lfoIndex st_example ! 0 +
          lfoIncrement (fmFreqOf 1.0 (fmModValue st_example 0)))"
    by blast
  then show ?thesis
    unfolding mv lo ph using len mv lo hi by blast
qed

subsection \<open>Gravity\<close>

lemma updateGravityWells_bounds:
  assumes "0 \<le> baseFreq"
  shows "0.1 * baseFreq \<le> currentFreq (fst (updateGravityWells gw phase baseFreq g)) \<and>
         currentFreq (fst (updateGravityWells gw phase baseFreq g)) \<le> 5.0 * baseFreq"
  using assms by (auto simp: updateGravityWells_def Let_def split: prod.splits)

lemma updateGravityWells_phase:
  "updateGravityWells gw phase baseFreq g = (gw', phase', g') \<Longrightarrow>
   phase' = updateLFO phase (currentFreq gw')"
  by (auto simp: updateGravityWells_def Let_def split: prod.splits if_splits)

text \<open>
  C5. After the update step of a Gravity channel, whatever the state before, the draws
  and the tick's base frequency (any \<^verbatim>\<open>readFrequency\<close> result, which is positive; more
  generally any non-negative base frequency), \<^verbatim>\<open>currentFreq\<close> lies between 0.1 and 5
  times that base frequency, and the phase is advanced at \<^verbatim>\<open>currentFreq\<close>.
\<close>

theorem C5_gravity_bounds:
  "0 < readFrequency rawVal \<and>
   0.1 * readFrequency rawVal
     \<le> currentFreq (fst (updateGravityWells gw phase (readFrequency rawVal) g)) \<and>
   currentFreq (fst (updateGravityWells gw phase (readFrequency rawVal) g))
     \<le> 5.0 * readFrequency rawVal \<and>
   (0 \<le> baseFreq \<longrightarrow>
      0.1 * baseFreq \<le> currentFreq (fst (updateGravityWells gw phase baseFreq g)) \<and>
      currentFreq (fst (updateGravityWells gw phase baseFreq g)) \<le> 5.0 * baseFreq) \<and>
   fst (snd (updateGravityWells gw phase baseFreq g)) =
     updateLFO phase (currentFreq (fst (updateGravityWells gw phase baseFreq g)))"
proof -
  have pos: "0 < readFrequency rawVal" by (rule readFrequency_pos)
  then have nonneg: "0 \<le> readFrequency rawVal" by simp
  have ph: "fst (snd (updateGravityWells gw phase baseFreq g)) =
     updateLFO phase (currentFreq (fst (updateGravityWells gw phase baseFreq g)))"
    using updateGravityWells_phase [of gw phase baseFreq g]
    by (cases "updateGravityWells gw phase baseFreq g") simp
  show ?thesis
    using pos updateGravityWells_bounds [OF nonneg, of gw phase g]
      updateGravityWells_bounds [of baseFreq gw phase g] ph
    by blast
qed

theorem C5_gravity_bounds_witness:
  "(0::real) \<le> 1 \<and>
   currentFreq (fst (updateGravityWells gw_example 0 1 (\<lambda>k. 0))) = 0.838 \<and>
   currentFreq (fst (updateGravityWells gw_example 0 20 (\<lambda>k. 999))) = 2 \<and>
   (0.1::real) * 20 \<le> 2"
  using C5_gravity_bounds [of 0 gw_example 0 "\<lambda>k. 0" 1]
  by (simp add: gw_example_def updateGravityWells_def random_range_def random_howbig_def
      rng_next_def Let_def)

subsection \<open>Table index\<close>

lemma unat_cast_uint16: "unat (cast_uint16 x) = nat (trunc_zero x mod 65536)"
  by (simp add: cast_uint16_def unat_eq_nat_uint uint_word_of_int take_bit_eq_mod)

lemma unat_tableIndex: "unat (tableIndex phase) = nat (trunc_zero phase mod 256)"
proof -
  have "unat (tableIndex phase) = unat (cast_uint16 phase) mod 256"
    by (simp add: tableIndex_def TABLE_SIZE_def unat_mod)
  also have "\<dots> = nat (trunc_zero phase mod 65536) mod nat 256"
    by (simp add: unat_cast_uint16)
  also have "\<dots> = nat (trunc_zero phase mod 65536 mod 256)"
    by (simp add: nat_mod_distrib)
  also have "trunc_zero phase mod 65536 mod 256 = trunc_zero phase mod 256"
    by (rule mod_mod_cancel) simp
  finally show ?thesis .
qed

lemma tableIndex_floor:
  assumes "0 \<le> phase"
  shows "unat (tableIndex phase) = nat (\<lfloor>phase\<rfloor> mod 256)"
  using assms by (simp add: unat_tableIndex trunc_zero_def)

lemma tableIndex_le: "unat (tableIndex phase) \<le> 255"
proof -
  have "trunc_zero phase mod 256 < 256" by simp
  then show ?thesis unfolding unat_tableIndex by linarith
qed

lemma getWaveValue_nth:
  "getWaveValue 0 phase = triangleWave ! unat (tableIndex phase) \<and>
   getWaveValue 1 phase = squareWave ! unat (tableIndex phase) \<and>
   getWaveValue 2 phase = sineWave ! unat (tableIndex phase)"
  by (simp add: getWaveValue_def Let_def)

text \<open>
  C8. For every non-negative phase, however large, the read index is
  \<open>floor phase mod 256\<close>, a value from 0 to 255: the conversion keeps the low 16 bits of the
  integer part, and 256 divides \<open>2 ^ 16\<close>, so reducing modulo 256 afterwards gives the
  same as reducing the integer part itself. The three tables are read at that index.
  This covers the phases from 65536 on, whose integer part no longer fits \<^verbatim>\<open>uint16_t\<close>.
\<close>

theorem C8_table_index:
  assumes "0 \<le> phase"
  shows "unat (tableIndex phase) = nat (\<lfloor>phase\<rfloor> mod 256) \<and>
    unat (tableIndex phase) \<le> 255 \<and>
    getWaveValue 0 phase = triangleWave ! nat (\<lfloor>phase\<rfloor> mod 256) \<and>
    getWaveValue 1 phase = squareWave ! nat (\<lfloor>phase\<rfloor> mod 256) \<and>
    getWaveValue 2 phase = sineWave ! nat (\<lfloor>phase\<rfloor> mod 256)"
  using tableIndex_floor [OF assms] tableIndex_le [of phase] getWaveValue_nth [of phase]
  by simp

theorem C8_table_index_witness:
  "(0::real) \<le> 65536 \<and> (0::real) \<le> 70000.5 \<and>
   unat (tableIndex 65536) = 0 \<and> unat (tableIndex 70000.5) = 112 \<and>
   \<not> fits_uint16 70000.5 \<and> getWaveValue 0 70000.5 = 224"
proof -
  have fl: "\<lfloor>70000.5 :: real\<rfloor> = 70000" by linarith
  have nf: "\<not> fits_uint16 70000.5"
    by (simp add: fits_uint16_def trunc_zero_def fl)
  have t: "triangleWave ! 112 = 224"
    by (simp add: triangleWave_def)
  from C8_table_index [of 65536] C8_table_index [of "70000.5"] nf t show ?thesis
    by (simp add: fl)
qed

subsection \<open>Stored waveforms\<close>

lemma upt_4: "[0..<4] = [0, 1, 2, Suc 2]"
  by (simp add: upt_rec numeral_eq_Suc)

lemma setupWaveTypes_nth:
  "i < 4 \<Longrightarrow> setupWaveTypes eeprom ! i = (if eeprom i \<le> 11 then eeprom i else waveTypeDefault ! i)"
  apply (simp add: setupWaveTypes_def upt_4 loadWaveType_def Let_def waveTypeDefault_def)
  apply (auto simp: nth_Cons' less_Suc_eq numeral_eq_Suc split: if_splits)
  done

lemma setupWaveTypes_length: "length (setupWaveTypes eeprom) = 4"
  by (simp add: setupWaveTypes_def upt_4 loadWaveType_def Let_def waveTypeDefault_def)

text \<open>
  C9. At startup, channel \<open>i\<close> of the four takes the stored byte as its waveform when the
  byte is at most 11 and keeps its default, 0, otherwise; the loop returns the four
  waveforms and nothing else, so no error is surfaced, and every waveform is at most 11.
\<close>

theorem C9_stored_waveform:
  assumes "i < 4"
  shows "setupWaveTypes eeprom ! i = (if eeprom i \<le> 11 then eeprom i else waveTypeDefault ! i) \<and>
         waveTypeDefault ! i = 0 \<and>
         setupWaveTypes eeprom ! i \<le> 11 \<and>
         length (setupWaveTypes eeprom) = 4"
proof -
  have d: "waveTypeDefault ! i = 0"
    using assms by (auto simp: waveTypeDefault_def nth_Cons' )
  show ?thesis
    using setupWaveTypes_nth [OF assms, of eeprom] d setupWaveTypes_length [of eeprom]
    by simp
qed

theorem C9_stored_waveform_witness:
  "(1::nat) < 4 \<and>
   setupWaveTypes (\<lambda>i. if i = 1 then 7 else 255) = [0, 7, 0, 0] \<and>
   setupWaveTypes (\<lambda>i. if i = 1 then 12 else 11) = [11, 0, 11, 11]"
  using C9_stored_waveform [of 1 "\<lambda>i. if i = 1 then 7 else 255"]
  by (simp add: setupWaveTypes_def upt_4 loadWaveType_def waveTypeDefault_def)

subsection \<open>Draws\<close>

lemma random_howbig_range:
  assumes "0 < howbig" and "random_howbig howbig g = (r, g')"
  shows "0 \<le> r \<and> r < howbig"
  using assms by (auto simp: random_howbig_def rng_next_def split: prod.splits)

lemma random_range_range:
  assumes "howsmall < howbig" and "random_range howsmall howbig g = (r, g')"
  shows "howsmall \<le> r \<and> r < howbig"
proof -
  obtain q g1 where q: "random_howbig (howbig - howsmall) g = (q, g1)"
    by (cases "random_howbig (howbig - howsmall) g")
  with assms have r: "r = q + howsmall"
    by (simp add: random_range_def Let_def)
  from assms(1) have "0 < howbig - howsmall" by simp
  from random_howbig_range [OF this q] r show ?thesis by simp
qed

subsection \<open>Ratchet Triangle\<close>

lemma duration_pos:
  assumes "0 \<le> d" and "d < n" and "0 < k" and "k + n \<le> 65536"
  shows "(0 :: 16 word) < word_of_int k + word_of_int d"
proof -
  have "0 < k + d" "k + d < 65536" using assms by simp_all
  then have "\<not> (65536 :: int) dvd (k + d)"
    by (auto dest: zdvd_imp_le)
  then have "(word_of_int (k + d) :: 16 word) \<noteq> 0"
    unfolding word_of_int_eq_0_iff by simp
  then show ?thesis by (simp add: word_greater_zero_iff)
qed

lemma word_pos_of_less: "(a :: 16 word) < b \<Longrightarrow> 0 < b"
  by (metis word_greater_zero_iff word_not_simps(1))

lemma setupRatchetTri_bounds: "ratchetBounds (fst (setupRatchetTri g))"
proof -
  obtain b g1 where b: "random_howbig 100 g = (b, g1)" by (cases "random_howbig 100 g")
  obtain p g2 where p: "random_howbig 200 g1 = (p, g2)" by (cases "random_howbig 200 g1")
  obtain m g3 where m: "random_howbig 4 g2 = (m, g3)" by (cases "random_howbig 4 g2")
  obtain f g4 where f: "random_howbig 600 g3 = (f, g4)" by (cases "random_howbig 600 g3")
  have "0 \<le> b \<and> b < 100" using random_howbig_range [OF _ b] by simp
  then have B: "(0 :: 16 word) < 50 + word_of_int b" using duration_pos [of b 100 50] by simp
  have "0 \<le> p \<and> p < 200" using random_howbig_range [OF _ p] by simp
  then have P: "(0 :: 16 word) < 100 + word_of_int p" using duration_pos [of p 200 100] by simp
  show ?thesis
    using B P by (simp add: setupRatchetTri_def ratchetBounds_def b p m f)
qed

lemma updateRatchetTri_pause_phase:
  "inPause r \<Longrightarrow> fst (snd (updateRatchetTri r phase baseFreq g)) = phase"
  by (simp add: updateRatchetTri_def Let_def split: prod.splits)

lemma updateRatchetTri_bounds:
  assumes "ratchetBounds r"
  shows "ratchetBounds (fst (updateRatchetTri r phase baseFreq g))"
proof (cases "inPause r")
  case True
  obtain d g1 where d: "random_howbig 100 g = (d, g1)" by (cases "random_howbig 100 g")
  obtain m g2 where m: "random_howbig 600 g1 = (m, g2)" by (cases "random_howbig 600 g1")
  have "0 \<le> d \<and> d < 100" using random_howbig_range [OF _ d] by simp
  then have D: "(0 :: 16 word) < 30 + word_of_int d" using duration_pos [of d 100 30] by simp
  have P: "0 < pauseDuration r" using assms by (auto simp: ratchetBounds_def dest: word_pos_of_less)
  show ?thesis
    using True assms D P
    by (auto simp: updateRatchetTri_def Let_def ratchetBounds_def d m not_le)
next
  case False
  obtain mb ga where mb: "random_howbig 4 g = (mb, ga)" by (cases "random_howbig 4 g")
  obtain pl gb where pl: "random_howbig 400 ga = (pl, gb)" by (cases "random_howbig 400 ga")
  obtain ps gc where ps: "random_howbig 100 g = (ps, gc)" by (cases "random_howbig 100 g")
  have "0 \<le> pl \<and> pl < 400" using random_howbig_range [OF _ pl] by simp
  then have PL: "(0 :: 16 word) < 200 + word_of_int pl" using duration_pos [of pl 400 200] by simp
  have "0 \<le> ps \<and> ps < 100" using random_howbig_range [OF _ ps] by simp
  then have PS: "(0 :: 16 word) < 50 + word_of_int ps" using duration_pos [of ps 100 50] by simp
  have ST: "(0 :: 16 word) < 10 + word_of_int x" if "random_howbig 20 h = (x, h')" for x h h'
  proof -
    have "0 \<le> x \<and> x < 20" using random_howbig_range [OF _ that] by simp
    then show ?thesis using duration_pos [of x 20 10] by simp
  qed
  have B: "0 < burstDuration r" using assms by (auto simp: ratchetBounds_def dest: word_pos_of_less)
  show ?thesis
    using False assms PL PS B
    by (auto simp: updateRatchetTri_def Let_def ratchetBounds_def mb pl ps not_le ST
        split: prod.splits)
qed

lemma ticksRatchetTri_bounds:
  "ratchetBounds r \<Longrightarrow> ratchetBounds (fst (ticksRatchetTri (r, phase) ts))"
proof (induction ts arbitrary: r phase)
  case Nil
  then show ?case by simp
next
  case (Cons t ts)
  obtain baseFreq g where t: "t = (baseFreq, g)" by (cases t)
  obtain r' phase' g' where u: "updateRatchetTri r phase baseFreq g = (r', phase', g')"
    by (cases "updateRatchetTri r phase baseFreq g")
  have "ratchetBounds r'"
    using updateRatchetTri_bounds [OF Cons.prems, of phase baseFreq g] u by simp
  then show ?case
    using Cons.IH [of r' phase'] by (simp add: t u)
qed

text \<open>
  C4. A tick of a Ratchet channel in its pause leaves the phase as it was. From the
  state that \<^verbatim>\<open>setup\<close> creates, after any number of ticks, whatever the draws and the
  base frequencies, \<^verbatim>\<open>pauseCounter < pauseDuration\<close> and
  \<^verbatim>\<open>ratchetCounter < burstDuration\<close> hold: at a transition the tick resets the counter
  that reached its duration before it returns, so the bounds hold after every tick, the
  ticks of a transition included.
\<close>

theorem C4_ratchet:
  "(inPause r \<longrightarrow> fst (snd (updateRatchetTri r phase baseFreq g)) = phase) \<and>
   pauseCounter (fst (ticksRatchetTri (fst (setupRatchetTri g0), phase0) ts))
     < pauseDuration (fst (ticksRatchetTri (fst (setupRatchetTri g0), phase0) ts)) \<and>
   ratchetCounter (fst (ticksRatchetTri (fst (setupRatchetTri g0), phase0) ts))
     < burstDuration (fst (ticksRatchetTri (fst (setupRatchetTri g0), phase0) ts))"
  using updateRatchetTri_pause_phase [of r phase baseFreq g]
    ticksRatchetTri_bounds [OF setupRatchetTri_bounds, of g0 phase0 ts]
  by (simp add: ratchetBounds_def)

theorem C4_ratchet_witness:
  "inPause ratchet_example \<and>
   fst (snd (updateRatchetTri ratchet_example 12.5 1.0 (\<lambda>k. 0))) = 12.5 \<and>
   pauseCounter (fst (updateRatchetTri ratchet_example 12.5 1.0 (\<lambda>k. 0))) = 1 \<and>
   pauseDuration (fst (updateRatchetTri ratchet_example 12.5 1.0 (\<lambda>k. 0))) = 100 \<and>
   ratchetCounter (fst (ticksRatchetTri (fst (setupRatchetTri (\<lambda>k. 0)), 0) [(1.0, \<lambda>k. 0)])) = 1 \<and>
   burstDuration (fst (ticksRatchetTri (fst (setupRatchetTri (\<lambda>k. 0)), 0) [(1.0, \<lambda>k. 0)])) = 50"
  using C4_ratchet [of ratchet_example "12.5" "1.0" "\<lambda>k. 0" "\<lambda>k. 0" 0 "[(1.0, \<lambda>k. 0)]"]
  by (simp add: ratchet_example_def setupRatchetTri_def updateRatchetTri_def random_howbig_def
      rng_next_def Let_def word_le_nat_alt)

subsection \<open>Random Slope: ramps\<close>

text \<open>The two cases of one update, written out.\<close>

lemma updateRandomSlope_due:
  assumes "retargetDue rs frequency ms" and "random_range 0 256 g = (t, g')"
  shows "updateRandomSlope rs frequency ms g =
    (rs\<lparr>previousMillis := ms, targetValue := real_of_int t,
        slopeStep := (real_of_int t - currentValue rs) / (1000 / frequency),
        currentValue :=
          (if (0 < (real_of_int t - currentValue rs) / (1000 / frequency) \<and>
               real_of_int t \<le> currentValue rs + (real_of_int t - currentValue rs) / (1000 / frequency)) \<or>
              ((real_of_int t - currentValue rs) / (1000 / frequency) < 0 \<and>
               currentValue rs + (real_of_int t - currentValue rs) / (1000 / frequency) \<le> real_of_int t)
           then real_of_int t
           else currentValue rs + (real_of_int t - currentValue rs) / (1000 / frequency))\<rparr>, g')"
  using assms by (simp add: updateRandomSlope_def Let_def)

lemma updateRandomSlope_hold:
  assumes "\<not> retargetDue rs frequency ms"
  shows "updateRandomSlope rs frequency ms g =
    (rs\<lparr>currentValue :=
          (if (0 < slopeStep rs \<and> targetValue rs \<le> currentValue rs + slopeStep rs) \<or>
              (slopeStep rs < 0 \<and> currentValue rs + slopeStep rs \<le> targetValue rs)
           then targetValue rs
           else currentValue rs + slopeStep rs)\<rparr>, g)"
  using assms by (simp add: updateRandomSlope_def Let_def)

lemma retarget_facts:
  assumes f: "0 < frequency" and due: "retargetDue rs frequency ms"
  shows "\<exists>t\<in>{0..255}. targetValue (fst (updateRandomSlope rs frequency ms g)) = real_of_int t"
    and "slopeStep (fst (updateRandomSlope rs frequency ms g)) =
          (targetValue (fst (updateRandomSlope rs frequency ms g)) - currentValue rs) / (1000 / frequency)"
    and "previousMillis (fst (updateRandomSlope rs frequency ms g)) = ms"
    and "rampOK (fst (updateRandomSlope rs frequency ms g))"
    and "min (currentValue rs) (targetValue (fst (updateRandomSlope rs frequency ms g)))
          \<le> currentValue (fst (updateRandomSlope rs frequency ms g))"
    and "currentValue (fst (updateRandomSlope rs frequency ms g))
          \<le> max (currentValue rs) (targetValue (fst (updateRandomSlope rs frequency ms g)))"
proof -
  obtain t g' where t: "random_range 0 256 g = (t, g')" by (cases "random_range 0 256 g")
  have tr: "0 \<le> t \<and> t < 256" using random_range_range [OF _ t] by simp
  note u = updateRandomSlope_due [OF due t]
  define s where "s = (real_of_int t - currentValue rs) / (1000 / frequency)"
  have s_eq: "s = (real_of_int t - currentValue rs) * (frequency / 1000)"
    by (simp add: s_def)
  have fpos: "0 < frequency / 1000" using f by simp
  have sp: "0 < s \<longleftrightarrow> currentValue rs < real_of_int t"
    unfolding s_eq using fpos by (simp add: zero_less_mult_iff)
  have sn: "s < 0 \<longleftrightarrow> real_of_int t < currentValue rs"
    unfolding s_eq using fpos by (simp add: mult_less_0_iff)
  show "\<exists>t\<in>{0..255}. targetValue (fst (updateRandomSlope rs frequency ms g)) = real_of_int t"
    using tr by (auto simp: u)
  show "slopeStep (fst (updateRandomSlope rs frequency ms g)) =
          (targetValue (fst (updateRandomSlope rs frequency ms g)) - currentValue rs) / (1000 / frequency)"
    by (simp add: u)
  show "previousMillis (fst (updateRandomSlope rs frequency ms g)) = ms"
    by (simp add: u)
  show "rampOK (fst (updateRandomSlope rs frequency ms g))"
    using sp sn unfolding u rampOK_def s_def by (simp del: divide_divide_eq_right) argo
  show "min (currentValue rs) (targetValue (fst (updateRandomSlope rs frequency ms g)))
          \<le> currentValue (fst (updateRandomSlope rs frequency ms g))"
    using sp sn unfolding u s_def by (simp del: divide_divide_eq_right) argo
  show "currentValue (fst (updateRandomSlope rs frequency ms g))
          \<le> max (currentValue rs) (targetValue (fst (updateRandomSlope rs frequency ms g)))"
    using sp sn unfolding u s_def by (simp del: divide_divide_eq_right) argo
qed


lemma hold_facts:
  assumes hold: "\<not> retargetDue rs frequency ms"
  shows "targetValue (fst (updateRandomSlope rs frequency ms g)) = targetValue rs"
    and "slopeStep (fst (updateRandomSlope rs frequency ms g)) = slopeStep rs"
    and "previousMillis (fst (updateRandomSlope rs frequency ms g)) = previousMillis rs"
    and "rampOK rs \<Longrightarrow> rampOK (fst (updateRandomSlope rs frequency ms g))"
    and "rampOK rs \<Longrightarrow> min (currentValue rs) (targetValue rs)
          \<le> currentValue (fst (updateRandomSlope rs frequency ms g))"
    and "rampOK rs \<Longrightarrow> currentValue (fst (updateRandomSlope rs frequency ms g))
          \<le> max (currentValue rs) (targetValue rs)"
  unfolding updateRandomSlope_hold [OF hold] rampOK_def by auto










subsection \<open>Random Slope: range\<close>

lemma cast_uint8_in_range:
  assumes "0 \<le> x" and "x \<le> 255"
  shows "fits_uint8 x"
    and "cast_uint8 x = word_of_int \<lfloor>x\<rfloor>"
    and "unat (cast_uint8 x) = nat \<lfloor>x\<rfloor>"
    and "unat (word_of_int \<lfloor>x\<rfloor> :: 8 word) = nat \<lfloor>x\<rfloor>"
proof -
  have fl: "0 \<le> \<lfloor>x\<rfloor>" "\<lfloor>x\<rfloor> \<le> 255" using assms by (simp_all add: floor_le_iff)
  then show "fits_uint8 x"
    using assms by (simp add: fits_uint8_def trunc_zero_def)
  show c: "cast_uint8 x = word_of_int \<lfloor>x\<rfloor>"
    using assms by (simp add: cast_uint8_def trunc_zero_def)
  show u: "unat (word_of_int \<lfloor>x\<rfloor> :: 8 word) = nat \<lfloor>x\<rfloor>"
    using fl by (simp add: unat_eq_nat_uint uint_word_of_int take_bit_int_eq_self)
  show "unat (cast_uint8 x) = nat \<lfloor>x\<rfloor>"
    unfolding c by (rule u)
qed

lemma slopeInRange_update:
  assumes f: "0 < frequency" and inv: "slopeInRange rs"
  shows "slopeInRange (fst (updateRandomSlope rs frequency ms g))"
proof (cases "retargetDue rs frequency ms")
  case True
  note r = retarget_facts [OF f True, of g]
  from r(1) obtain t where t: "0 \<le> t" "t \<le> 255"
    "targetValue (fst (updateRandomSlope rs frequency ms g)) = real_of_int t" by auto
  then have "0 \<le> targetValue (fst (updateRandomSlope rs frequency ms g))"
    "targetValue (fst (updateRandomSlope rs frequency ms g)) \<le> 255" by simp_all
  then show ?thesis
    using r(4,5,6) inv unfolding slopeInRange_def by linarith
next
  case False
  note h = hold_facts [OF False, of g]
  have ok: "rampOK rs" using inv by (simp add: slopeInRange_def)
  show ?thesis
    using h(1) h(4) [OF ok] h(5) [OF ok] h(6) [OF ok] inv unfolding slopeInRange_def by linarith
qed

lemma slopeInRange_ticks:
  "\<forall>(f, m, h)\<in>set ts. 0 < f \<Longrightarrow> slopeInRange rs \<Longrightarrow> slopeInRange (ticksRandomSlope rs ts)"
proof (induction ts arbitrary: rs)
  case Nil
  then show ?case by simp
next
  case (Cons t ts)
  obtain f m h where t: "t = (f, m, h)" by (cases t)
  have "0 < f" using Cons.prems(1) by (simp add: t)
  then have step: "slopeInRange (fst (updateRandomSlope rs f m h))"
    using Cons.prems(2) by (rule slopeInRange_update)
  have rest: "\<forall>(f, m, h)\<in>set ts. 0 < f" using Cons.prems(1) by auto
  from Cons.IH [OF rest step] show ?case by (simp add: t)
qed

lemma slopeInRange_setup: "slopeInRange setupRandomSlope"
  by (simp add: slopeInRange_def rampOK_def setupRandomSlope_def)

text \<open>
  C10. From the state that \<^verbatim>\<open>setup\<close> creates, after any sequence of ticks of a Random
  Slope channel (each with its pot reading, its \<^verbatim>\<open>millis()\<close> and its draws), the current
  value and the target lie between 0 and 255, so the current value fits the 8-bit
  output: the conversion reduces nothing, and the output sample is the integer part of
  the current value.
\<close>

theorem C10_random_slope_range:
  fixes ticks :: "(16 word \<times> 32 word \<times> rng) list"
  defines "rs \<equiv> ticksRandomSlope setupRandomSlope
      (map (\<lambda>(rawVal, ms, g). (readFrequency rawVal, ms, g)) ticks)"
  shows "0 \<le> currentValue rs \<and> currentValue rs \<le> 255 \<and>
    0 \<le> targetValue rs \<and> targetValue rs \<le> 255 \<and>
    fits_uint8 (currentValue rs) \<and>
    outputRandomSlope rs = word_of_int \<lfloor>currentValue rs\<rfloor> \<and>
    unat (outputRandomSlope rs) = nat \<lfloor>currentValue rs\<rfloor> \<and>
    unat (word_of_int \<lfloor>currentValue rs\<rfloor> :: 8 word) = nat \<lfloor>currentValue rs\<rfloor>"
proof -
  have "\<forall>(f, m, h)\<in>set (map (\<lambda>(rawVal, ms, g). (readFrequency rawVal, ms, g)) ticks). 0 < f"
    by (auto simp: readFrequency_pos)
  then have inv: "slopeInRange rs"
    unfolding rs_def using slopeInRange_setup by (rule slopeInRange_ticks)
  then have b: "0 \<le> currentValue rs" "currentValue rs \<le> 255"
    "0 \<le> targetValue rs" "targetValue rs \<le> 255"
    by (simp_all add: slopeInRange_def)
  show ?thesis
    unfolding outputRandomSlope_def using b cast_uint8_in_range [OF b(1,2)] by blast
qed

end
